theory Spec2Isabelle
  imports Main "HOL-Library.Word" "HOL-Library.Multiset"
begin

section \<open>Data model\<close>

text \<open>
  The tables of the initial schema migration. Identifiers are PostgreSQL \<open>UUID\<close>s, 128-bit
  values compared as unsigned integers; \<open>TIMESTAMP WITH TIME ZONE\<close> is an integer count of
  microseconds. Nullability follows the row types the client declares in \<open>lib/supabase.ts\<close>:
  of the columns the operations below read, only \<open>channel_id\<close> and \<open>recipient_id\<close> of
  \<open>messages\<close>, \<open>created_by\<close> of \<open>channels\<close> and \<open>avatar_url\<close> of \<open>profiles\<close> may be
  \<open>NULL\<close>. Columns that no modelled
  operation reads (\<open>description\<close>, \<open>updated_at\<close>, the surrogate \<open>id\<close> and the
  \<open>joined_at\<close>/\<open>created_at\<close> defaults of the two link tables) are left out.
  Row-level security policies are evaluated for an authenticated user, whose id
  is what \<open>auth.uid()\<close> returns. Foreign keys are not checked here: an insert that the
  operations below accept can still be refused for a reference to a missing profile or
  channel, and one they refuse is refused.
\<close>

type_synonym uuid = "128 word"

type_synonym timestamptz = int

datatype presence = online | away | offline

record profile =
  pr_id :: uuid
  full_name :: string
  avatar_url :: "string option"
  status :: presence

record channel =
  ch_id :: uuid
  ch_name :: string
  is_private :: bool
  created_by :: "uuid option"

datatype member_role = Admin | Member

record channel_member =
  cm_channel_id :: uuid
  cm_user_id :: uuid
  cm_role :: member_role

record message =
  msg_id :: uuid
  content :: string
  user_id :: uuid
  channel_id :: "uuid option"
  recipient_id :: "uuid option"
  created_at :: timestamptz

record dm_participants =
  user1_id :: uuid
  user2_id :: uuid
  last_message_at :: timestamptz

record database =
  profiles :: "profile list"
  channels :: "channel list"
  channel_members :: "channel_member list"
  messages :: "message list"
  direct_message_participants :: "dm_participants list"

definition empty_database :: database where
  "empty_database =
     \<lparr>profiles = [], channels = [], channel_members = [], messages = [],
      direct_message_participants = []\<rparr>"

text \<open>
  The errors a statement can end with: a row-level security policy rejecting the row, the two
  \<open>CHECK\<close> constraints of the schema, a \<open>UNIQUE\<close> or primary key conflict, a \<open>NULL\<close>
  in a \<open>NOT NULL\<close> column, and a table name that no schema of the search path holds. A
  statement that ends with an error changes nothing.
\<close>

datatype db_error =
    rls_violation
  | check_message_target_violation
  | check_different_users_violation
  | unique_violation
  | not_null_violation
  | undefined_table

section \<open>Row-level security policies\<close>

text \<open>
  \<open>public.is_channel_member(channel_id_to_check, user_id_to_check)\<close>: the
  \<open>SECURITY DEFINER\<close> helper of the definitive policy reset, an \<open>EXISTS\<close> over
  \<open>channel_members\<close>.
\<close>

definition is_channel_member :: "channel_member list \<Rightarrow> uuid \<Rightarrow> uuid \<Rightarrow> bool" where
  "is_channel_member cms channel_id_to_check user_id_to_check =
     list_ex (\<lambda>r. cm_channel_id r = channel_id_to_check \<and> cm_user_id r = user_id_to_check) cms"

text \<open>
  Policy "Users can view public channels and private channels they are members of",
  \<open>FOR SELECT\<close> on \<open>channels\<close>.
\<close>

definition channels_select :: "database \<Rightarrow> uuid \<Rightarrow> channel \<Rightarrow> bool" where
  "channels_select db uid c =
     (is_private c = False \<or> is_channel_member (channel_members db) (ch_id c) uid)"

text \<open>
  \<open>public.can_access_channel(p_channel_id, p_user_id)\<close> of the earlier recursion fix: it
  reads the privacy flag of the channel with that id (\<open>NULL\<close> when there is none, and then
  the comparison with \<open>false\<close> is not true) and falls back to the membership test.
\<close>

definition can_access_channel :: "database \<Rightarrow> uuid \<Rightarrow> uuid \<Rightarrow> bool" where
  "can_access_channel db p_channel_id p_user_id =
     (let v_is_private = map_option is_private (find (\<lambda>c. ch_id c = p_channel_id) (channels db))
      in if v_is_private = Some False then True
         else is_channel_member (channel_members db) p_channel_id p_user_id)"

text \<open>
  Policy "Users can view messages in their channels and DMs", \<open>FOR SELECT\<close> on
  \<open>messages\<close>.
\<close>

definition messages_select :: "database \<Rightarrow> uuid \<Rightarrow> message \<Rightarrow> bool" where
  "messages_select db uid m =
     ((case channel_id m of
         None \<Rightarrow> False
       | Some c \<Rightarrow> is_channel_member (channel_members db) c uid)
      \<or> (recipient_id m \<noteq> None \<and> (uid = user_id m \<or> Some uid = recipient_id m)))"

text \<open>
  Policy "Users can send messages in their channels and DMs", \<open>FOR INSERT WITH CHECK\<close> on
  \<open>messages\<close>: the policy in force after the definitive reset, which drops every earlier
  policy of the table.
\<close>

definition messages_insert_check :: "database \<Rightarrow> uuid \<Rightarrow> message \<Rightarrow> bool" where
  "messages_insert_check db uid m =
     ((case channel_id m of
         None \<Rightarrow> False
       | Some c \<Rightarrow> is_channel_member (channel_members db) c uid)
      \<or> (recipient_id m \<noteq> None \<and> (uid = user_id m \<or> Some uid = recipient_id m)))"

text \<open>
  Policy "Users can send messages to channels they're members of" of the initial schema,
  the first \<open>INSERT\<close> policy the table had. Its \<open>EXISTS\<close> subquery over
  \<open>channel_members\<close> is the test that \<open>is_channel_member\<close> makes. This is the policy's
  expression only: a row it rejects is refused, but under the initial schema the subquery
  is itself subject to the policy of \<open>channel_members\<close>, which refers to its own table
  (the recursion the later migrations remove), so a row it admits need not be inserted.
\<close>

definition messages_insert_check_initial :: "database \<Rightarrow> uuid \<Rightarrow> message \<Rightarrow> bool" where
  "messages_insert_check_initial db uid m =
     (user_id m = uid \<and>
      ((case channel_id m of
          None \<Rightarrow> False
        | Some c \<Rightarrow> is_channel_member (channel_members db) c uid)
       \<or> recipient_id m \<noteq> None))"

text \<open>
  Policy "Users can view and manage their own DM conversations", \<open>FOR ALL\<close> on
  \<open>direct_message_participants\<close>; its \<open>USING\<close> and \<open>WITH CHECK\<close> expressions are the same.
\<close>

definition dm_participants_policy :: "uuid \<Rightarrow> dm_participants \<Rightarrow> bool" where
  "dm_participants_policy uid r = (uid = user1_id r \<or> uid = user2_id r)"

section \<open>The messages table\<close>

text \<open>
  \<open>CONSTRAINT check_message_target\<close> of \<open>messages\<close>.
\<close>

definition check_message_target :: "message \<Rightarrow> bool" where
  "check_message_target m =
     ((channel_id m \<noteq> None \<and> recipient_id m = None) \<or>
      (channel_id m = None \<and> recipient_id m \<noteq> None))"

text \<open>
  The table's own part of an \<open>INSERT\<close>, once the row has passed the policy: the \<open>CHECK\<close>
  constraint, then the primary key, then the row is appended.
\<close>

definition messages_append :: "message list \<Rightarrow> message \<Rightarrow> db_error + message list" where
  "messages_append rows m =
     (if \<not> check_message_target m then Inl check_message_target_violation
      else if list_ex (\<lambda>x. msg_id x = msg_id m) rows then Inl unique_violation
      else Inr (rows @ [m]))"

text \<open>
  Each \<open>INSERT\<close> is a statement of its own: when it ends with an error the table is as it
  was before.
\<close>

definition append_attempt :: "message list \<Rightarrow> message \<Rightarrow> message list" where
  "append_attempt rows m = (case messages_append rows m of Inl e \<Rightarrow> rows | Inr rows' \<Rightarrow> rows')"

fun append_attempts :: "message list \<Rightarrow> message list \<Rightarrow> message list" where
  "append_attempts rows [] = rows"
| "append_attempts rows (m # ms) = append_attempts (append_attempt rows m) ms"

section \<open>The direct message conversations table\<close>

text \<open>
  \<open>LEAST\<close> and \<open>GREATEST\<close> on two identifiers, and the pair the trigger stores them as.
\<close>

definition least_of :: "uuid \<Rightarrow> uuid \<Rightarrow> uuid" where
  "least_of a b = (if a \<le> b then a else b)"

definition greatest_of :: "uuid \<Rightarrow> uuid \<Rightarrow> uuid" where
  "greatest_of a b = (if a \<le> b then b else a)"

definition canonical_key :: "uuid \<Rightarrow> uuid \<Rightarrow> uuid \<times> uuid" where
  "canonical_key a b = (least_of a b, greatest_of a b)"

text \<open>
  \<open>CONSTRAINT check_different_users\<close> and the conflict target of
  \<open>UNIQUE(user1_id, user2_id)\<close>.
\<close>

definition check_different_users :: "dm_participants \<Rightarrow> bool" where
  "check_different_users r = (user1_id r \<noteq> user2_id r)"

definition same_users :: "dm_participants \<Rightarrow> dm_participants \<Rightarrow> bool" where
  "same_users r x = (user1_id x = user1_id r \<and> user2_id x = user2_id r)"

text \<open>
  A plain \<open>INSERT\<close> into \<open>direct_message_participants\<close> by user \<open>uid\<close>: policy, \<open>CHECK\<close>,
  uniqueness.
\<close>

definition dm_participants_insert ::
  "uuid \<Rightarrow> dm_participants list \<Rightarrow> dm_participants \<Rightarrow> db_error + dm_participants list" where
  "dm_participants_insert uid rows r =
     (if \<not> dm_participants_policy uid r then Inl rls_violation
      else if \<not> check_different_users r then Inl check_different_users_violation
      else if list_ex (same_users r) rows then Inl unique_violation
      else Inr (rows @ [r]))"

text \<open>
  \<open>INSERT ... ON CONFLICT (user1_id, user2_id) DO UPDATE SET last_message_at = ...\<close>:
  the proposed row passes the policy and the \<open>CHECK\<close> first; on a conflict the existing
  row gets the proposed timestamp, otherwise the row is appended.
\<close>

definition dm_participants_upsert ::
  "uuid \<Rightarrow> dm_participants list \<Rightarrow> dm_participants \<Rightarrow> db_error + dm_participants list" where
  "dm_participants_upsert uid rows r =
     (if \<not> dm_participants_policy uid r then Inl rls_violation
      else if \<not> check_different_users r then Inl check_different_users_violation
      else if list_ex (same_users r) rows
        then Inr (map (\<lambda>x. if same_users r x then x\<lparr>last_message_at := last_message_at r\<rparr> else x) rows)
      else Inr (rows @ [r]))"

text \<open>
  The statement inside the trigger function \<open>update_dm_participants\<close>, for a message from
  \<open>a\<close> to \<open>b\<close> created at \<open>at\<close>, run in the session of user \<open>uid\<close>.
\<close>

definition record_direct_message ::
  "uuid \<Rightarrow> dm_participants list \<Rightarrow> uuid \<Rightarrow> uuid \<Rightarrow> timestamptz \<Rightarrow> db_error + dm_participants list" where
  "record_direct_message uid rows a b at =
     dm_participants_upsert uid rows
       \<lparr>user1_id = least_of a b, user2_id = greatest_of a b, last_message_at = at\<rparr>"

text \<open>
  The trigger function \<open>update_dm_participants\<close>, \<open>AFTER INSERT ON messages FOR EACH ROW\<close>.
  It is not \<open>SECURITY DEFINER\<close>, so it runs as the user who inserts the message.
\<close>

definition update_dm_participants :: "uuid \<Rightarrow> database \<Rightarrow> message \<Rightarrow> db_error + database" where
  "update_dm_participants uid db NEW =
     (case recipient_id NEW of
        None \<Rightarrow> Inr db
      | Some r \<Rightarrow>
          (case record_direct_message uid (direct_message_participants db) (user_id NEW) r (created_at NEW) of
             Inl e \<Rightarrow> Inl e
           | Inr rows \<Rightarrow> Inr (db\<lparr>direct_message_participants := rows\<rparr>)))"

text \<open>
  A sequence of such statements for one pair, each with its own session user, direction and
  timestamp; an error ends the sequence.
\<close>

fun record_direct_messages ::
  "dm_participants list \<Rightarrow> (uuid \<times> uuid \<times> uuid \<times> timestamptz) list \<Rightarrow> db_error + dm_participants list" where
  "record_direct_messages rows [] = Inr rows"
| "record_direct_messages rows ((uid, a, b, at) # calls) =
     (case record_direct_message uid rows a b at of
        Inl e \<Rightarrow> Inl e
      | Inr rows' \<Rightarrow> record_direct_messages rows' calls)"

text \<open>
  The rows that belong to the unordered pair of \<open>a\<close> and \<open>b\<close>, in either column order.
\<close>

definition conversation_rows :: "uuid \<Rightarrow> uuid \<Rightarrow> dm_participants list \<Rightarrow> dm_participants list" where
  "conversation_rows a b rows =
     filter (\<lambda>r. (user1_id r = a \<and> user2_id r = b) \<or> (user1_id r = b \<and> user2_id r = a)) rows"

text \<open>
  The key of \<open>UNIQUE(user1_id, user2_id)\<close>. A table is ready for the pair of \<open>a\<close> and
  \<open>b\<close> when it satisfies that constraint and holds no row for the pair with the larger
  identifier in the first column.
\<close>

definition dm_key :: "dm_participants \<Rightarrow> uuid \<times> uuid" where
  "dm_key r = (user1_id r, user2_id r)"

definition pair_ready :: "uuid \<Rightarrow> uuid \<Rightarrow> dm_participants list \<Rightarrow> bool" where
  "pair_ready a b rows =
     (distinct (map dm_key rows) \<and>
      \<not> list_ex (\<lambda>r. user1_id r = greatest_of a b \<and> user2_id r = least_of a b) rows)"

text \<open>
  The timestamp of a call, and the calls that belong to the pair of \<open>a\<close> and \<open>b\<close>: a
  message between the two in either direction, inserted by one of them.
\<close>

fun call_at :: "uuid \<times> uuid \<times> uuid \<times> timestamptz \<Rightarrow> timestamptz" where
  "call_at (uid, a, b, at) = at"

definition call_for :: "uuid \<Rightarrow> uuid \<Rightarrow> uuid \<times> uuid \<times> uuid \<times> timestamptz \<Rightarrow> bool" where
  "call_for a b c =
     (case c of (uid, x, y, at) \<Rightarrow> ((x = a \<and> y = b) \<or> (x = b \<and> y = a)) \<and> (uid = a \<or> uid = b))"

section \<open>Inserting a message\<close>

text \<open>
  One \<open>INSERT INTO messages\<close> by user \<open>uid\<close>: the \<open>WITH CHECK\<close> policy, the table's
  constraints, then the \<open>AFTER INSERT\<close> trigger. An error anywhere, also in the trigger,
  aborts the whole statement.
\<close>

definition insert_message :: "database \<Rightarrow> uuid \<Rightarrow> message \<Rightarrow> db_error + database" where
  "insert_message db uid m =
     (if \<not> messages_insert_check db uid m then Inl rls_violation
      else case messages_append (messages db) m of
             Inl e \<Rightarrow> Inl e
           | Inr rows \<Rightarrow> update_dm_participants uid (db\<lparr>messages := rows\<rparr>) m)"

text \<open>
  \<open>sendMessage\<close> of the \<open>useMessages\<close> hook: nothing without a signed-in user; otherwise one
  insert of \<open>{content, user_id: user.id, channel_id: channelId, recipient_id: recipientId}\<close>,
  whose \<open>id\<close> and \<open>created_at\<close> the database fills in. The error is only logged; the result
  here is that error and the database afterwards.
\<close>

definition sendMessage ::
  "database \<Rightarrow> uuid option \<Rightarrow> uuid option \<Rightarrow> uuid option \<Rightarrow> string \<Rightarrow> uuid \<Rightarrow> timestamptz
     \<Rightarrow> db_error option \<times> database" where
  "sendMessage db user channelId recipientId text new_id now =
     (case user of
        None \<Rightarrow> (None, db)
      | Some uid \<Rightarrow>
          (case insert_message db uid
                  \<lparr>msg_id = new_id, content = text, user_id = uid, channel_id = channelId,
                   recipient_id = recipientId, created_at = now\<rparr> of
             Inl e \<Rightarrow> (Some e, db)
           | Inr db' \<Rightarrow> (None, db')))"

section \<open>Creating conversations from the client\<close>

text \<open>
  The body \<open>fetchProfiles\<close> of the \<open>useProfiles\<close> hook runs for every other profile: it
  looks for a conversation row in either column order, and \<open>.single()\<close> yields a row only
  when exactly one matches; without one it inserts
  \<open>{user1_id: user.id, user2_id: profile.id}\<close>, \<open>last_message_at\<close> defaulting to the
  current time, and ignores the outcome.
\<close>

definition fetchProfiles_dm ::
  "uuid \<Rightarrow> dm_participants list \<Rightarrow> uuid \<Rightarrow> timestamptz \<Rightarrow> dm_participants list" where
  "fetchProfiles_dm uid rows profile_id now =
     (let existingDM = filter (dm_participants_policy uid) (conversation_rows uid profile_id rows)
      in if length existingDM = 1 then rows
         else (case dm_participants_insert uid rows
                      \<lparr>user1_id = uid, user2_id = profile_id, last_message_at = now\<rparr> of
                 Inl e \<Rightarrow> rows
               | Inr rows' \<Rightarrow> rows'))"

section \<open>Reading messages\<close>

text \<open>
  The filter of \<open>fetchMessages\<close> in the \<open>useMessages\<close> hook: by channel when a channel is
  selected, otherwise the direct messages between the user and the selected peer; with
  neither the hook does not query at all.
\<close>

definition fetchMessages_filter :: "uuid \<Rightarrow> uuid option \<Rightarrow> uuid option \<Rightarrow> message \<Rightarrow> bool" where
  "fetchMessages_filter uid channelId recipientId m =
     (case channelId of
        Some c \<Rightarrow> channel_id m = Some c
      | None \<Rightarrow>
          (case recipientId of
             Some r \<Rightarrow> channel_id m = None
                       \<and> (user_id m = uid \<or> user_id m = r)
                       \<and> (recipient_id m = Some uid \<or> recipient_id m = Some r)
           | None \<Rightarrow> False))"

text \<open>
  The rows the query ranges over, in the order they were inserted: those the \<open>SELECT\<close>
  policy shows to the user and the filter keeps.
\<close>

definition fetchMessages_rows :: "database \<Rightarrow> uuid \<Rightarrow> uuid option \<Rightarrow> uuid option \<Rightarrow> message list" where
  "fetchMessages_rows db uid channelId recipientId =
     filter (\<lambda>m. messages_select db uid m \<and> fetchMessages_filter uid channelId recipientId m)
       (messages db)"

text \<open>
  \<open>.order('created_at', { ascending: true })\<close>: a result is any arrangement of the rows in
  which \<open>created_at\<close> never decreases. \<open>ORDER BY\<close> on that one column says nothing about
  the order of rows with equal timestamps.
\<close>

definition order_by_created_at :: "message list \<Rightarrow> message list \<Rightarrow> bool" where
  "order_by_created_at rows res = (mset res = mset rows \<and> sorted (map created_at res))"

definition fetchMessages :: "database \<Rightarrow> uuid \<Rightarrow> uuid option \<Rightarrow> uuid option \<Rightarrow> message list \<Rightarrow> bool" where
  "fetchMessages db uid channelId recipientId res =
     order_by_created_at (fetchMessages_rows db uid channelId recipientId) res"

text \<open>
  The order \<open>(created_at, id)\<close>: by timestamp, and by identifier among equal timestamps.
\<close>

definition created_at_id_le :: "message \<Rightarrow> message \<Rightarrow> bool" where
  "created_at_id_le m n =
     (created_at m < created_at n \<or> (created_at m = created_at n \<and> msg_id m \<le> msg_id n))"

section \<open>Joining public channels automatically\<close>

text \<open>
  An insert into \<open>channel_members\<close> under \<open>UNIQUE(channel_id, user_id)\<close>, and the same with
  \<open>ON CONFLICT (channel_id, user_id) DO NOTHING\<close>.
\<close>

definition channel_members_insert ::
  "channel_member list \<Rightarrow> channel_member \<Rightarrow> db_error + channel_member list" where
  "channel_members_insert rows r =
     (if list_ex (\<lambda>x. cm_channel_id x = cm_channel_id r \<and> cm_user_id x = cm_user_id r) rows
      then Inl unique_violation
      else Inr (rows @ [r]))"

definition channel_members_insert_do_nothing ::
  "channel_member list \<Rightarrow> channel_member \<Rightarrow> db_error + channel_member list" where
  "channel_members_insert_do_nothing rows r =
     (case channel_members_insert rows r of
        Inl e \<Rightarrow> (if e = unique_violation then Inr rows else Inl e)
      | Inr rows' \<Rightarrow> Inr rows')"

fun channel_members_insert_all ::
  "channel_member list \<Rightarrow> channel_member list \<Rightarrow> db_error + channel_member list" where
  "channel_members_insert_all rows [] = Inr rows"
| "channel_members_insert_all rows (r # rs) =
     (case channel_members_insert_do_nothing rows r of
        Inl e \<Rightarrow> Inl e
      | Inr rows' \<Rightarrow> channel_members_insert_all rows' rs)"

text \<open>
  The trigger function \<open>auto_join_public_channels\<close>, \<open>AFTER INSERT ON profiles\<close>, for the
  new profile's id: \<open>INSERT INTO channel_members SELECT id, NEW.id, 'member' FROM channels
  WHERE is_private = false ON CONFLICT (channel_id, user_id) DO NOTHING\<close>. It is
  \<open>SECURITY DEFINER\<close>, so no policy applies. It names its two tables without a schema and
  sets no \<open>search_path\<close> of its own, so it finds them only when \<open>public\<close> is on the
  search path it is called with.
\<close>

definition auto_join_public_channels :: "string list \<Rightarrow> database \<Rightarrow> uuid \<Rightarrow> db_error + database" where
  "auto_join_public_channels search_path db new_id =
     (if ''public'' \<in> set search_path
      then (case channel_members_insert_all (channel_members db)
                   (map (\<lambda>c. \<lparr>cm_channel_id = ch_id c, cm_user_id = new_id, cm_role = Member\<rparr>)
                        (filter (\<lambda>c. is_private c = False) (channels db))) of
              Inl e \<Rightarrow> Inl e
            | Inr rows \<Rightarrow> Inr (db\<lparr>channel_members := rows\<rparr>))
      else Inl undefined_table)"

section \<open>Creating a user\<close>

text \<open>
  The columns of a new \<open>auth.users\<close> row that \<open>handle_new_user\<close> reads: its id, its
  email, and \<open>full_name\<close> and \<open>avatar_url\<close> of \<open>raw_user_meta_data\<close>.
\<close>

record auth_user =
  au_id :: uuid
  email :: "string option"
  meta_full_name :: "string option"
  meta_avatar_url :: "string option"

text \<open>
  The trigger function \<open>handle_new_user\<close>, \<open>AFTER INSERT ON auth.users\<close>: it inserts the
  profile into \<open>public.profiles\<close>, named \<open>COALESCE(full_name, email)\<close> and \<open>offline\<close> by
  default, and that insert fires \<open>auto_join_public_channels\<close> for the new profile. The
  hardening migration gives the function \<open>SET search_path = ''\<close>, which no later
  migration undoes; the setting holds while the function runs, the trigger of its insert
  included.
\<close>

definition handle_new_user :: "database \<Rightarrow> auth_user \<Rightarrow> db_error + database" where
  "handle_new_user db new =
     (case (case meta_full_name new of Some n \<Rightarrow> Some n | None \<Rightarrow> email new) of
        None \<Rightarrow> Inl not_null_violation
      | Some n \<Rightarrow>
          if list_ex (\<lambda>p. pr_id p = au_id new) (profiles db) then Inl unique_violation
          else auto_join_public_channels []
                 (db\<lparr>profiles := profiles db @
                    [\<lparr>pr_id = au_id new, full_name = n, avatar_url = meta_avatar_url new,
                      status = offline\<rparr>]\<rparr>)
                 (au_id new))"

section \<open>Example data\<close>

text \<open>
  A small database used to run the definitions. Users 10, 11 and 12; the public channel
  \<open>general\<close> with user 10 as its only member; the private channel \<open>design\<close> created by
  user 10 with users 10 and 11 as members; one message in each channel and one direct
  message from 10 to 11. User 12 has no membership row at all.
\<close>

definition general :: channel where
  "general = \<lparr>ch_id = 1, ch_name = ''general'', is_private = False, created_by = None\<rparr>"

definition design :: channel where
  "design = \<lparr>ch_id = 2, ch_name = ''design'', is_private = True, created_by = Some 10\<rparr>"

definition msg_general :: message where
  "msg_general =
     \<lparr>msg_id = 100, content = ''hello'', user_id = 10, channel_id = Some 1,
      recipient_id = None, created_at = 1\<rparr>"

definition msg_design :: message where
  "msg_design =
     \<lparr>msg_id = 101, content = ''draft'', user_id = 10, channel_id = Some 2,
      recipient_id = None, created_at = 2\<rparr>"

definition msg_direct :: message where
  "msg_direct =
     \<lparr>msg_id = 102, content = ''hi'', user_id = 10, channel_id = None,
      recipient_id = Some 11, created_at = 3\<rparr>"

definition example_db :: database where
  "example_db =
     \<lparr>profiles =
        [\<lparr>pr_id = 10, full_name = ''Ada'', avatar_url = None, status = online\<rparr>,
         \<lparr>pr_id = 11, full_name = ''Ben'', avatar_url = None, status = away\<rparr>,
         \<lparr>pr_id = 12, full_name = ''Cy'', avatar_url = None, status = offline\<rparr>],
      channels = [general, design],
      channel_members =
        [\<lparr>cm_channel_id = 1, cm_user_id = 10, cm_role = Member\<rparr>,
         \<lparr>cm_channel_id = 2, cm_user_id = 10, cm_role = Admin\<rparr>,
         \<lparr>cm_channel_id = 2, cm_user_id = 11, cm_role = Member\<rparr>],
      messages = [msg_general, msg_design, msg_direct],
      direct_message_participants =
        [\<lparr>user1_id = 10, user2_id = 11, last_message_at = 3\<rparr>]\<rparr>"

text \<open>
  Two rows a client can send: a direct message to user 11 and a message to \<open>design\<close>, both
  carrying user 10 as their author.
\<close>

definition forged_direct :: message where
  "forged_direct =
     \<lparr>msg_id = 200, content = ''call me'', user_id = 10, channel_id = None,
      recipient_id = Some 11, created_at = 4\<rparr>"

definition forged_design :: message where
  "forged_design =
     \<lparr>msg_id = 201, content = ''approved'', user_id = 10, channel_id = Some 2,
      recipient_id = None, created_at = 5\<rparr>"

text \<open>
  Two messages to \<open>general\<close> created at the same instant; the one inserted first has
  the larger identifier.
\<close>

definition tie_first :: message where
  "tie_first =
     \<lparr>msg_id = 9, content = ''first'', user_id = 10, channel_id = Some 1,
      recipient_id = None, created_at = 7\<rparr>"

definition tie_second :: message where
  "tie_second =
     \<lparr>msg_id = 8, content = ''second'', user_id = 10, channel_id = Some 1,
      recipient_id = None, created_at = 7\<rparr>"

section \<open>Channel and message visibility\<close>

lemma is_channel_member_iff:
  "is_channel_member cms c u \<longleftrightarrow> (\<exists>r \<in> set cms. cm_channel_id r = c \<and> cm_user_id r = u)"
  by (simp add: is_channel_member_def list_ex_iff)

lemma find_ch_id:
  assumes "distinct (map ch_id cs)" and "c \<in> set cs"
  shows "find (\<lambda>x. ch_id x = ch_id c) cs = Some c"
  using assms
proof (induction cs)
  case Nil
  then show ?case by simp
next
  case (Cons x xs)
  show ?case
  proof (cases "x = c")
    case True
    then show ?thesis by simp
  next
    case False
    with Cons.prems have in_tl: "c \<in> set xs" by simp
    from Cons.prems have "ch_id x \<notin> ch_id ` set xs" by simp
    with in_tl have "ch_id x \<noteq> ch_id c" by force
    with Cons in_tl show ?thesis by simp
  qed
qed

text \<open>
  On a channel of the table (whose primary key is \<open>id\<close>), the earlier helper
  \<open>can_access_channel\<close> and the definitive \<open>SELECT\<close> policy decide alike.
\<close>

lemma can_access_channel_channels_select:
  assumes "distinct (map ch_id (channels db))" and "c \<in> set (channels db)"
  shows "can_access_channel db (ch_id c) u = channels_select db u c"
  using find_ch_id [OF assms]
  by (simp add: can_access_channel_def channels_select_def)

text \<open>
  C3. A user can view a channel exactly when the channel is not private or the user has a
  membership row for it: every public channel is visible to every user, and a private channel
  is visible to its members and to nobody else.
\<close>

theorem channels_select_public_or_member:
  "(channels_select db u c \<longleftrightarrow>
      is_private c = False \<or> (\<exists>r \<in> set (channel_members db). cm_channel_id r = ch_id c \<and> cm_user_id r = u))
   \<and> (is_private c = False \<longrightarrow> channels_select db u c)
   \<and> (is_private c = True \<longrightarrow>
        (channels_select db u c \<longleftrightarrow>
           (\<exists>r \<in> set (channel_members db). cm_channel_id r = ch_id c \<and> cm_user_id r = u)))"
  by (simp add: channels_select_def is_channel_member_iff)

theorem channels_select_public_or_member_witness:
  "is_private general = False \<and> channels_select example_db 12 general
   \<and> is_private design = True \<and> channels_select example_db 11 design
   \<and> \<not> channels_select example_db 12 design"
  using channels_select_public_or_member [of example_db 12 general]
    channels_select_public_or_member [of example_db 11 design]
    channels_select_public_or_member [of example_db 12 design]
  by (simp add: example_db_def general_def design_def)

text \<open>
  C2, as the claim states it, fails: user 12 can view the public channel \<open>general\<close> but has
  no membership row for it, and the message policy does not show that user the channel's
  message.
\<close>

theorem messages_select_public_channel_counterexample:
  "channel_id msg_general = Some (ch_id general) \<and> is_private general = False
   \<and> channels_select example_db 12 general
   \<and> \<not> messages_select example_db 12 msg_general"
  by (simp add: channels_select_def messages_select_def is_channel_member_def
      example_db_def general_def msg_general_def)

text \<open>
  C2, amended. A message that targets a channel is visible to a user exactly when the user
  has a membership row for that channel, whatever the channel's privacy flag; so viewing the
  message implies viewing the channel, and the two coincide when the channel is private. A
  message that targets a recipient is visible exactly to its author and to its recipient.
\<close>

theorem messages_select_by_target:
  "(channel_id m = Some cid \<and> recipient_id m = None \<longrightarrow>
      (messages_select db u m \<longleftrightarrow>
         (\<exists>x \<in> set (channel_members db). cm_channel_id x = cid \<and> cm_user_id x = u))
      \<and> (ch_id c = cid \<and> messages_select db u m \<longrightarrow> channels_select db u c)
      \<and> (ch_id c = cid \<and> is_private c = True \<longrightarrow>
           (messages_select db u m \<longleftrightarrow> channels_select db u c)))
   \<and> (channel_id m = None \<and> recipient_id m = Some r \<longrightarrow>
        (messages_select db u m \<longleftrightarrow> u = user_id m \<or> u = r))"
  by (auto simp: messages_select_def channels_select_def is_channel_member_iff)

theorem messages_select_by_target_witness:
  "channel_id msg_design = Some 2 \<and> recipient_id msg_design = None
   \<and> ch_id design = 2 \<and> is_private design = True
   \<and> messages_select example_db 11 msg_design \<and> channels_select example_db 11 design
   \<and> \<not> messages_select example_db 12 msg_design
   \<and> channel_id msg_direct = None \<and> recipient_id msg_direct = Some 11
   \<and> messages_select example_db 11 msg_direct \<and> messages_select example_db 10 msg_direct
   \<and> \<not> messages_select example_db 12 msg_direct"
  using messages_select_by_target [of msg_design 2 example_db 11 design]
    messages_select_by_target [of msg_design 2 example_db 12 design]
    messages_select_by_target [of msg_direct 0 example_db 11 general 11]
    messages_select_by_target [of msg_direct 0 example_db 10 general 11]
    messages_select_by_target [of msg_direct 0 example_db 12 general 11]
  by (simp add: example_db_def design_def msg_design_def msg_direct_def)

section \<open>Authorising an insert\<close>

text \<open>
  The first \<open>INSERT\<close> policy of the table lets a user insert only rows that carry that
  user as their author.
\<close>

lemma messages_insert_check_initial_author:
  "messages_insert_check_initial db u m \<Longrightarrow> user_id m = u"
  by (simp add: messages_insert_check_initial_def)

text \<open>
  C1. The policy in force authorises inserts whose author is another user. User 11, the
  recipient, may insert a direct message that names user 10 as its author, and as a member of
  \<open>design\<close> may insert a channel message that names user 10 as its author; the first policy
  of the table refuses both rows, and the whole \<open>INSERT\<close> of the direct message goes
  through.
\<close>

theorem messages_insert_check_other_author:
  "user_id forged_direct = 10 \<and> user_id forged_design = 10
   \<and> messages_insert_check example_db 11 forged_direct
   \<and> messages_insert_check example_db 11 forged_design
   \<and> \<not> messages_insert_check_initial example_db 11 forged_direct
   \<and> \<not> messages_insert_check_initial example_db 11 forged_design
   \<and> insert_message example_db 11 forged_direct =
       Inr (example_db
             \<lparr>messages := [msg_general, msg_design, msg_direct, forged_direct],
              direct_message_participants :=
                [\<lparr>user1_id = 10, user2_id = 11, last_message_at = 4\<rparr>]\<rparr>)"
  by (simp add: messages_insert_check_def messages_insert_check_initial_def
      is_channel_member_def insert_message_def messages_append_def check_message_target_def
      update_dm_participants_def record_direct_message_def dm_participants_upsert_def
      dm_participants_policy_def check_different_users_def same_users_def
      least_of_def greatest_of_def
      example_db_def forged_direct_def forged_design_def
      msg_general_def msg_design_def msg_direct_def)

section \<open>The target of a message\<close>

lemma append_attempt_cases:
  "append_attempt rows m = rows \<or> (append_attempt rows m = rows @ [m] \<and> check_message_target m)"
  by (simp add: append_attempt_def messages_append_def)

lemma append_attempts_keep:
  assumes "list_all P rows" and "\<And>m. check_message_target m \<Longrightarrow> P m"
  shows "list_all P (append_attempts rows ms)"
  using assms(1)
proof (induction ms arbitrary: rows)
  case Nil
  then show ?case by simp
next
  case (Cons m ms)
  from append_attempt_cases [of rows m] Cons.prems assms(2)
  have "list_all P (append_attempt rows m)" by auto
  then show ?case using Cons.IH by simp
qed

lemma insert_message_messages:
  assumes "insert_message db u m = Inr db'"
  shows "messages db' = messages db @ [m] \<and> check_message_target m"
proof -
  from assms have ok: "messages_append (messages db) m = Inr (messages db @ [m])"
    and target: "check_message_target m"
    by (auto simp: insert_message_def messages_append_def split: if_splits)
  from assms ok
  have "update_dm_participants u (db\<lparr>messages := messages db @ [m]\<rparr>) m = Inr db'"
    by (simp add: insert_message_def split: if_splits)
  then have "messages db' = messages db @ [m]"
    by (auto simp: update_dm_participants_def split: option.splits sum.splits)
  with target show ?thesis by simp
qed

text \<open>
  C7, as the claim states it, fails: an insert with neither target, as \<open>sendMessage\<close>
  makes it when no channel and no peer is selected, ends with the policy's error and not
  with the violation of \<open>check_message_target\<close>; so does an insert with both targets by a
  user the policy does not admit.
\<close>

theorem insert_message_no_target_counterexample:
  "sendMessage example_db (Some 10) None None ''hello'' 300 9 = (Some rls_violation, example_db)
   \<and> insert_message example_db 12 (forged_design\<lparr>recipient_id := Some 13\<rparr>)
       = Inl rls_violation
   \<and> rls_violation \<noteq> check_message_target_violation"
  by (simp add: sendMessage_def insert_message_def messages_insert_check_def
      is_channel_member_def example_db_def forged_design_def)

text \<open>
  C7, amended. Every attempt to insert a row with both targets or with neither is refused
  and leaves the database as it was. The table itself refuses such a row with the violation
  of \<open>check_message_target\<close>; a whole \<open>INSERT\<close> ends with that violation when the policy
  admits the row and with the policy's error when it does not, which is always so for a row
  with neither target. Hence whatever inserts are attempted, every row of the table has
  exactly one of \<open>channel_id\<close> and \<open>recipient_id\<close>.
\<close>

theorem check_message_target_enforced:
  "((channel_id m \<noteq> None \<and> recipient_id m \<noteq> None) \<or> (channel_id m = None \<and> recipient_id m = None) \<longrightarrow>
      messages_append rows m = Inl check_message_target_violation
      \<and> append_attempt rows m = rows
      \<and> insert_message db u m =
          Inl (if messages_insert_check db u m then check_message_target_violation
               else rls_violation))
   \<and> (channel_id m = None \<and> recipient_id m = None \<longrightarrow> insert_message db u m = Inl rls_violation)
   \<and> ((channelId \<noteq> None \<and> recipientId \<noteq> None) \<or> (channelId = None \<and> recipientId = None) \<longrightarrow>
        (\<exists>e. sendMessage db (Some u) channelId recipientId text new_id now = (Some e, db)))
   \<and> (list_all (\<lambda>x. (channel_id x = None) \<noteq> (recipient_id x = None)) rows \<longrightarrow>
        list_all (\<lambda>x. (channel_id x = None) \<noteq> (recipient_id x = None)) (append_attempts rows ms))
   \<and> (list_all (\<lambda>x. (channel_id x = None) \<noteq> (recipient_id x = None)) (messages db)
        \<and> insert_message db u m = Inr db' \<longrightarrow>
        list_all (\<lambda>x. (channel_id x = None) \<noteq> (recipient_id x = None)) (messages db'))"
proof -
  have target: "check_message_target x \<Longrightarrow> (channel_id x = None) \<noteq> (recipient_id x = None)" for x
    by (auto simp: check_message_target_def)
  have refused: "messages_append rows' m' = Inl check_message_target_violation"
    if "(channel_id m' \<noteq> None \<and> recipient_id m' \<noteq> None) \<or> (channel_id m' = None \<and> recipient_id m' = None)"
    for rows' m'
    using that by (auto simp: messages_append_def check_message_target_def)
  have whole: "insert_message db u m' =
      Inl (if messages_insert_check db u m' then check_message_target_violation else rls_violation)"
    if "(channel_id m' \<noteq> None \<and> recipient_id m' \<noteq> None) \<or> (channel_id m' = None \<and> recipient_id m' = None)"
    for m'
    using refused [OF that, of "messages db"] by (simp add: insert_message_def)
  have neither: "insert_message db u m = Inl rls_violation"
    if "channel_id m = None \<and> recipient_id m = None"
    using that by (simp add: insert_message_def messages_insert_check_def)
  have sent: "\<exists>e. sendMessage db (Some u) channelId recipientId text new_id now = (Some e, db)"
    if "(channelId \<noteq> None \<and> recipientId \<noteq> None) \<or> (channelId = None \<and> recipientId = None)"
    using whole [of "\<lparr>msg_id = new_id, content = text, user_id = u, channel_id = channelId,
      recipient_id = recipientId, created_at = now\<rparr>"] that
    by (simp add: sendMessage_def)
  have table: "list_all (\<lambda>x. (channel_id x = None) \<noteq> (recipient_id x = None)) (append_attempts rows ms)"
    if "list_all (\<lambda>x. (channel_id x = None) \<noteq> (recipient_id x = None)) rows"
    using that target by (rule append_attempts_keep)
  have kept: "list_all (\<lambda>x. (channel_id x = None) \<noteq> (recipient_id x = None)) (messages db')"
    if "list_all (\<lambda>x. (channel_id x = None) \<noteq> (recipient_id x = None)) (messages db)"
      and "insert_message db u m = Inr db'"
    using insert_message_messages [OF that(2)] that(1) target [of m] by simp
  have first: "messages_append rows m = Inl check_message_target_violation
      \<and> append_attempt rows m = rows
      \<and> insert_message db u m =
          Inl (if messages_insert_check db u m then check_message_target_violation
               else rls_violation)"
    if "(channel_id m \<noteq> None \<and> recipient_id m \<noteq> None) \<or> (channel_id m = None \<and> recipient_id m = None)"
    using refused [OF that, of rows] whole [OF that] by (simp add: append_attempt_def)
  from first neither sent table kept show ?thesis by blast
qed

theorem check_message_target_enforced_witness:
  "channel_id (forged_design\<lparr>recipient_id := Some 11\<rparr>) \<noteq> None
   \<and> recipient_id (forged_design\<lparr>recipient_id := Some 11\<rparr>) \<noteq> None
   \<and> messages_insert_check example_db 10 (forged_design\<lparr>recipient_id := Some 11\<rparr>)
   \<and> messages_append (messages example_db) (forged_design\<lparr>recipient_id := Some 11\<rparr>)
        = Inl check_message_target_violation
   \<and> insert_message example_db 10 (forged_design\<lparr>recipient_id := Some 11\<rparr>)
        = Inl check_message_target_violation
   \<and> channel_id (forged_design\<lparr>channel_id := None\<rparr>) = None
   \<and> recipient_id (forged_design\<lparr>channel_id := None\<rparr>) = None
   \<and> messages_append (messages example_db) (forged_design\<lparr>channel_id := None\<rparr>)
        = Inl check_message_target_violation
   \<and> insert_message example_db 10 (forged_design\<lparr>channel_id := None\<rparr>) = Inl rls_violation
   \<and> (\<exists>e. sendMessage example_db (Some 10) None None ''hello'' 300 9 = (Some e, example_db))
   \<and> (\<exists>e. sendMessage example_db (Some 10) (Some 2) (Some 11) ''hello'' 300 9 = (Some e, example_db))
   \<and> list_all (\<lambda>x. (channel_id x = None) \<noteq> (recipient_id x = None))
        (append_attempts [] [msg_general, forged_design\<lparr>recipient_id := Some 11\<rparr>, msg_direct])
   \<and> list_all (\<lambda>x. (channel_id x = None) \<noteq> (recipient_id x = None)) (messages example_db)
   \<and> insert_message example_db 10 forged_design
        = Inr (example_db\<lparr>messages := messages example_db @ [forged_design]\<rparr>)
   \<and> list_all (\<lambda>x. (channel_id x = None) \<noteq> (recipient_id x = None))
        (messages (example_db\<lparr>messages := messages example_db @ [forged_design]\<rparr>))"
proof -
  have both: "channel_id (forged_design\<lparr>recipient_id := Some 11\<rparr>) \<noteq> None
      \<and> recipient_id (forged_design\<lparr>recipient_id := Some 11\<rparr>) \<noteq> None"
    by (simp add: forged_design_def)
  have neither: "channel_id (forged_design\<lparr>channel_id := None\<rparr>) = None
      \<and> recipient_id (forged_design\<lparr>channel_id := None\<rparr>) = None"
    by (simp add: forged_design_def)
  have policy: "messages_insert_check example_db 10 (forged_design\<lparr>recipient_id := Some 11\<rparr>)"
    by (simp add: messages_insert_check_def is_channel_member_def example_db_def forged_design_def)
  have stored: "list_all (\<lambda>x. (channel_id x = None) \<noteq> (recipient_id x = None)) (messages example_db)"
    by (simp add: example_db_def msg_general_def msg_design_def msg_direct_def)
  have inserted: "insert_message example_db 10 forged_design
      = Inr (example_db\<lparr>messages := messages example_db @ [forged_design]\<rparr>)"
    by (simp add: insert_message_def messages_insert_check_def is_channel_member_def
        messages_append_def check_message_target_def update_dm_participants_def
        example_db_def forged_design_def msg_general_def msg_design_def msg_direct_def)
  have empty: "list_all (\<lambda>x. (channel_id x = None) \<noteq> (recipient_id x = None)) []"
    by simp
  note both_case = check_message_target_enforced
    [of "forged_design\<lparr>recipient_id := Some 11\<rparr>" "messages example_db" example_db 10
      "Some 2" "Some 11" "''hello''" 300 9 "[]" example_db]
  note neither_case = check_message_target_enforced
    [of "forged_design\<lparr>channel_id := None\<rparr>" "messages example_db" example_db 10
      None None "''hello''" 300 9 "[]" example_db]
  note kept_case = check_message_target_enforced
    [of forged_design "[]" example_db 10 None None "''hello''" 300 9
      "[msg_general, forged_design\<lparr>recipient_id := Some 11\<rparr>, msg_direct]"
      "example_db\<lparr>messages := messages example_db @ [forged_design]\<rparr>"]
  from both_case both policy
  have refused_both: "messages_append (messages example_db) (forged_design\<lparr>recipient_id := Some 11\<rparr>)
        = Inl check_message_target_violation
      \<and> insert_message example_db 10 (forged_design\<lparr>recipient_id := Some 11\<rparr>)
        = Inl check_message_target_violation
      \<and> (\<exists>e. sendMessage example_db (Some 10) (Some 2) (Some 11) ''hello'' 300 9 = (Some e, example_db))"
    by auto
  from neither_case neither
  have refused_neither: "messages_append (messages example_db) (forged_design\<lparr>channel_id := None\<rparr>)
        = Inl check_message_target_violation
      \<and> insert_message example_db 10 (forged_design\<lparr>channel_id := None\<rparr>) = Inl rls_violation
      \<and> (\<exists>e. sendMessage example_db (Some 10) None None ''hello'' 300 9 = (Some e, example_db))"
    by blast
  from kept_case empty stored inserted
  have kept: "list_all (\<lambda>x. (channel_id x = None) \<noteq> (recipient_id x = None))
        (append_attempts [] [msg_general, forged_design\<lparr>recipient_id := Some 11\<rparr>, msg_direct])
      \<and> list_all (\<lambda>x. (channel_id x = None) \<noteq> (recipient_id x = None))
        (messages (example_db\<lparr>messages := messages example_db @ [forged_design]\<rparr>))"
    by blast
  from both neither policy stored inserted refused_both refused_neither kept
  show ?thesis by blast
qed

section \<open>The key of a conversation\<close>

text \<open>
  C6. The key the trigger computes for a conversation does not depend on the order of the
  two users: it is the smaller identifier followed by the larger one, so the trigger's
  statement for a message from \<open>a\<close> to \<open>b\<close> is its statement for a message from \<open>b\<close> to
  \<open>a\<close>.
\<close>

theorem canonical_key_symmetric:
  "canonical_key a b = canonical_key b a
   \<and> canonical_key a b = (min a b, max a b)
   \<and> record_direct_message uid rows a b at = record_direct_message uid rows b a at"
  by (auto simp: canonical_key_def record_direct_message_def least_of_def greatest_of_def
      min_def max_def)

section \<open>A direct message to oneself\<close>

lemma record_direct_message_self:
  "\<exists>e. record_direct_message v rows u u at = Inl e"
  by (simp add: record_direct_message_def dm_participants_upsert_def check_different_users_def
      least_of_def greatest_of_def)

text \<open>
  C10. An insert of a message whose recipient is its author ends with an error, whoever
  runs it: when the policy and the table accept the row, the trigger's upsert proposes a
  conversation row with the same user twice and \<open>check_different_users\<close> aborts the
  statement. Sent from the client, such a message leaves the database as it was, without
  the message and without a conversation row.
\<close>

theorem insert_message_to_self_fails:
  "(user_id m = u \<and> recipient_id m = Some u \<longrightarrow>
      (\<exists>e. insert_message db v m = Inl e)
      \<and> (channel_id m = None \<and> v = u \<and> \<not> list_ex (\<lambda>x. msg_id x = msg_id m) (messages db) \<longrightarrow>
           insert_message db v m = Inl check_different_users_violation))
   \<and> (\<exists>e. sendMessage db (Some u) channelId (Some u) text new_id now = (Some e, db))"
proof -
  have trigger: "\<exists>e. update_dm_participants v' db' m' = Inl e"
    if "user_id m' = u" and "recipient_id m' = Some u" for db' v' m'
    using that record_direct_message_self [of v' "direct_message_participants db'" u "created_at m'"]
    by (auto simp: update_dm_participants_def)
  have fails: "\<exists>e. insert_message db v m = Inl e"
    if "user_id m = u" and "recipient_id m = Some u"
    using trigger [OF that]
    by (cases "messages_append (messages db) m") (auto simp: insert_message_def)
  have which: "insert_message db v m = Inl check_different_users_violation"
    if "user_id m = u" and "recipient_id m = Some u" and "channel_id m = None" and "v = u"
      and "\<not> list_ex (\<lambda>x. msg_id x = msg_id m) (messages db)"
    using that
    by (simp add: insert_message_def messages_insert_check_def messages_append_def
        check_message_target_def update_dm_participants_def record_direct_message_def
        dm_participants_upsert_def dm_participants_policy_def check_different_users_def
        least_of_def greatest_of_def)
  have "\<exists>e. insert_message db u m' = Inl e"
    if "user_id m' = u" and "recipient_id m' = Some u" for m'
    using trigger [OF that]
    by (cases "messages_append (messages db) m'") (auto simp: insert_message_def)
  from this [of "\<lparr>msg_id = new_id, content = text, user_id = u, channel_id = channelId,
      recipient_id = Some u, created_at = now\<rparr>"]
  obtain e where "insert_message db u
      \<lparr>msg_id = new_id, content = text, user_id = u, channel_id = channelId,
       recipient_id = Some u, created_at = now\<rparr> = Inl e"
    by auto
  then have sent: "\<exists>e. sendMessage db (Some u) channelId (Some u) text new_id now = (Some e, db)"
    by (simp add: sendMessage_def)
  from fails which sent show ?thesis by blast
qed

theorem insert_message_to_self_fails_witness:
  "user_id (msg_direct\<lparr>msg_id := 300, recipient_id := Some 10\<rparr>) = 10
   \<and> recipient_id (msg_direct\<lparr>msg_id := 300, recipient_id := Some 10\<rparr>) = Some 10
   \<and> channel_id (msg_direct\<lparr>msg_id := 300, recipient_id := Some 10\<rparr>) = None
   \<and> \<not> list_ex (\<lambda>x. msg_id x = msg_id (msg_direct\<lparr>msg_id := 300, recipient_id := Some 10\<rparr>))
        (messages example_db)
   \<and> insert_message example_db 10 (msg_direct\<lparr>msg_id := 300, recipient_id := Some 10\<rparr>)
        = Inl check_different_users_violation"
proof -
  have fresh: "\<not> list_ex (\<lambda>x. msg_id x = msg_id (msg_direct\<lparr>msg_id := 300, recipient_id := Some 10\<rparr>))
      (messages example_db)"
    by (simp add: example_db_def msg_general_def msg_design_def msg_direct_def)
  have row: "user_id (msg_direct\<lparr>msg_id := 300, recipient_id := Some 10\<rparr>) = 10
      \<and> recipient_id (msg_direct\<lparr>msg_id := 300, recipient_id := Some 10\<rparr>) = Some 10
      \<and> channel_id (msg_direct\<lparr>msg_id := 300, recipient_id := Some 10\<rparr>) = None"
    by (simp add: msg_direct_def)
  from fresh row
    insert_message_to_self_fails [of "msg_direct\<lparr>msg_id := 300, recipient_id := Some 10\<rparr>" 10
      example_db 10]
  show ?thesis by simp
qed

section \<open>One conversation row per pair\<close>

lemma filter_key_single:
  assumes "distinct (map f xs)" and "x \<in> set xs"
  shows "filter (\<lambda>y. f y = f x) xs = [x]"
  using assms
proof (induction xs)
  case Nil
  then show ?case by simp
next
  case (Cons y ys)
  show ?case
  proof (cases "y = x")
    case True
    with Cons.prems have "f x \<notin> f ` set ys" by simp
    then have "\<forall>y \<in> set ys. f y \<noteq> f x" by (metis image_eqI)
    then have "filter (\<lambda>y. f y = f x) ys = []"
      by (simp add: filter_empty_conv)
    with True show ?thesis by simp
  next
    case False
    with Cons.prems have "x \<in> set ys" by simp
    moreover from Cons.prems have "f y \<notin> f ` set ys" by simp
    ultimately have "f y \<noteq> f x" by force
    with Cons \<open>x \<in> set ys\<close> show ?thesis by simp
  qed
qed

lemma filter_key_update:
  assumes "\<And>r. f (g r) = f r"
  shows "filter (\<lambda>r. f r = k) (map (\<lambda>r. if f r = k then g r else r) rs)
           = map g (filter (\<lambda>r. f r = k) rs)"
  using assms by (induction rs) auto

lemma least_greatest_swap:
  "least_of b a = least_of a b \<and> greatest_of b a = greatest_of a b"
  by (auto simp: least_of_def greatest_of_def)

lemma least_greatest_cases:
  "a \<noteq> b \<Longrightarrow> least_of a b \<noteq> greatest_of a b \<and>
     ((least_of a b = a \<and> greatest_of a b = b) \<or> (least_of a b = b \<and> greatest_of a b = a))"
  by (auto simp: least_of_def greatest_of_def)

lemma record_direct_message_step:
  assumes ab: "a \<noteq> b"
    and xy: "(x = a \<and> y = b) \<or> (x = b \<and> y = a)"
    and uid: "uid = a \<or> uid = b"
    and ready: "pair_ready a b rows"
  shows "\<exists>rows'. record_direct_message uid rows x y at = Inr rows'
           \<and> pair_ready a b rows'
           \<and> conversation_rows a b rows' =
               [\<lparr>user1_id = least_of a b, user2_id = greatest_of a b, last_message_at = at\<rparr>]"
proof -
  define lo hi where "lo = least_of a b" and "hi = greatest_of a b"
  define new where "new = \<lparr>user1_id = lo, user2_id = hi, last_message_at = at\<rparr>"
  have key: "least_of x y = lo \<and> greatest_of x y = hi"
    using xy least_greatest_swap [of a b] by (auto simp: lo_def hi_def)
  have lohi: "lo \<noteq> hi \<and> ((lo = a \<and> hi = b) \<or> (lo = b \<and> hi = a))"
    using least_greatest_cases [OF ab] by (simp add: lo_def hi_def)
  have distinct: "distinct (map dm_key rows)"
    and no_rev: "\<forall>r \<in> set rows. \<not> (user1_id r = hi \<and> user2_id r = lo)"
    using ready by (auto simp: pair_ready_def list_ex_iff lo_def hi_def)
  have conv: "conversation_rows a b rs = filter (\<lambda>r. dm_key r = (lo, hi)) rs"
    if "\<forall>r \<in> set rs. \<not> (user1_id r = hi \<and> user2_id r = lo)" for rs
    using that lohi by (auto simp: conversation_rows_def dm_key_def intro!: filter_cong)
  have admitted: "dm_participants_policy uid new \<and> check_different_users new"
    using lohi uid by (auto simp: dm_participants_policy_def check_different_users_def new_def)
  have same: "same_users new r \<longleftrightarrow> dm_key r = (lo, hi)" for r
    by (auto simp: same_users_def dm_key_def new_def)
  show ?thesis
  proof (cases "list_ex (same_users new) rows")
    case True
    define rows' where
      "rows' = map (\<lambda>r. if same_users new r then r\<lparr>last_message_at := last_message_at new\<rparr> else r) rows"
    have res: "record_direct_message uid rows x y at = Inr rows'"
      using admitted True key
      by (simp add: record_direct_message_def dm_participants_upsert_def rows'_def new_def)
    have keys: "map dm_key rows' = map dm_key rows"
      by (simp add: rows'_def dm_key_def)
    have users: "\<forall>r \<in> set rows'. \<not> (user1_id r = hi \<and> user2_id r = lo)"
      using no_rev by (auto simp: rows'_def)
    from True obtain old where old: "old \<in> set rows" "dm_key old = (lo, hi)"
      by (auto simp: list_ex_iff same)
    have "rows' = map (\<lambda>r. if dm_key r = (lo, hi) then r\<lparr>last_message_at := at\<rparr> else r) rows"
      unfolding rows'_def same by (simp add: new_def)
    moreover have "dm_key (r\<lparr>last_message_at := at\<rparr>) = dm_key r" for r
      by (simp add: dm_key_def)
    ultimately have "filter (\<lambda>r. dm_key r = (lo, hi)) rows'
        = map (\<lambda>r. r\<lparr>last_message_at := at\<rparr>) (filter (\<lambda>r. dm_key r = (lo, hi)) rows)"
      by (simp only: filter_key_update [of dm_key])
    also have "\<dots> = map (\<lambda>r. r\<lparr>last_message_at := at\<rparr>) (filter (\<lambda>r. dm_key r = dm_key old) rows)"
      by (simp add: old(2))
    also have "\<dots> = [old\<lparr>last_message_at := at\<rparr>]"
      using filter_key_single [OF distinct old(1)] by simp
    also have "\<dots> = [new]"
      using old(2) by (simp add: new_def dm_key_def)
    finally have "conversation_rows a b rows' = [new]"
      using conv [OF users] by simp
    moreover have "pair_ready a b rows'"
      using keys distinct users by (auto simp: pair_ready_def list_ex_iff lo_def hi_def)
    ultimately show ?thesis using res by (simp add: new_def lo_def hi_def)
  next
    case False
    have res: "record_direct_message uid rows x y at = Inr (rows @ [new])"
      using admitted False key
      by (simp add: record_direct_message_def dm_participants_upsert_def new_def)
    from False have absent: "\<forall>r \<in> set rows. dm_key r \<noteq> (lo, hi)"
      by (simp add: list_ex_iff same)
    then have "filter (\<lambda>r. dm_key r = (lo, hi)) rows = []"
      by (auto simp: filter_empty_conv)
    moreover have users: "\<forall>r \<in> set (rows @ [new]). \<not> (user1_id r = hi \<and> user2_id r = lo)"
      using no_rev lohi by (auto simp: new_def)
    ultimately have "conversation_rows a b (rows @ [new]) = [new]"
      using conv [OF users] by (simp add: dm_key_def new_def)
    moreover have "distinct (map dm_key (rows @ [new]))"
      using distinct absent by (auto simp: dm_key_def new_def)
    then have "pair_ready a b (rows @ [new])"
      using users by (auto simp: pair_ready_def list_ex_iff lo_def hi_def)
    ultimately show ?thesis using res by (simp add: new_def lo_def hi_def)
  qed
qed

lemma record_direct_messages_conversation:
  assumes "a \<noteq> b" and "calls \<noteq> []" and "list_all (call_for a b) calls" and "pair_ready a b rows"
  shows "\<exists>rows'. record_direct_messages rows calls = Inr rows'
           \<and> conversation_rows a b rows' =
               [\<lparr>user1_id = least_of a b, user2_id = greatest_of a b,
                 last_message_at = call_at (last calls)\<rparr>]"
  using assms(2-4)
proof (induction calls arbitrary: rows rule: list_nonempty_induct)
  case (single c)
  obtain uid x y at where c: "c = (uid, x, y, at)" by (cases c) auto
  with single have "(x = a \<and> y = b) \<or> (x = b \<and> y = a)" and "uid = a \<or> uid = b"
    by (auto simp: call_for_def)
  from record_direct_message_step [OF assms(1) this single(2), of at]
  show ?case by (auto simp: c)
next
  case (cons c cs)
  obtain uid x y at where c: "c = (uid, x, y, at)" by (cases c) auto
  with cons.prems have "(x = a \<and> y = b) \<or> (x = b \<and> y = a)" and "uid = a \<or> uid = b"
    by (auto simp: call_for_def)
  from record_direct_message_step [OF assms(1) this cons.prems(2), of at]
  obtain rows' where step: "record_direct_message uid rows x y at = Inr rows'"
    and ready: "pair_ready a b rows'"
    by blast
  from cons.prems have "list_all (call_for a b) cs" by simp
  from cons.IH [OF this ready] cons.hyps step show ?case
    by (simp add: c)
qed

lemma sorted_last_Max:
  fixes xs :: "int list"
  assumes "sorted xs" and "xs \<noteq> []"
  shows "last xs = Max (set xs)"
proof -
  from assms(2) have split: "xs = butlast xs @ [last xs]" by simp
  with assms(1) have "sorted (butlast xs @ [last xs])" by simp
  then have "\<forall>y \<in> set (butlast xs). y \<le> last xs"
    by (simp add: sorted_append)
  moreover have "set xs = insert (last xs) (set (butlast xs))"
    by (subst split) simp
  ultimately have "\<forall>y \<in> set xs. y \<le> last xs" by simp
  with assms(2) show ?thesis
    by (intro Max_eqI [symmetric]) auto
qed

text \<open>
  C5, as the claim states it, fails: after a message at time 10 and a second one at time 5
  the single row of the pair carries 5, not the maximum 10.
\<close>

theorem record_direct_messages_max_counterexample:
  "record_direct_messages [] [(10, 10, 11, 10), (10, 10, 11, 5)]
     = Inr [\<lparr>user1_id = 10, user2_id = 11, last_message_at = 5\<rparr>]
   \<and> Max (set (map call_at [(10, 10, 11, 10), (10 :: uuid, 10 :: uuid, 11 :: uuid, 5)])) = 10"
  by (simp add: record_direct_message_def dm_participants_upsert_def dm_participants_policy_def
      check_different_users_def same_users_def least_of_def greatest_of_def)

text \<open>
  C5, amended. For two different users, any non-empty sequence of upserts for their pair, in
  either direction and by either of the two, run on a table that is ready for the pair, ends
  without error with exactly one row for the pair, keyed by the smaller and the larger
  identifier, whose \<open>last_message_at\<close> is the timestamp of the last call: each upsert
  overwrites the timestamp. That is the maximum of the timestamps when they never decrease.
\<close>

theorem record_direct_messages_last:
  "a \<noteq> b \<and> calls \<noteq> [] \<and> list_all (call_for a b) calls \<and> pair_ready a b rows \<longrightarrow>
     (\<exists>rows'. record_direct_messages rows calls = Inr rows'
        \<and> conversation_rows a b rows' =
            [\<lparr>user1_id = least_of a b, user2_id = greatest_of a b,
              last_message_at = call_at (last calls)\<rparr>])
     \<and> (sorted (map call_at calls) \<longrightarrow> call_at (last calls) = Max (set (map call_at calls)))"
proof (intro impI conjI)
  assume "a \<noteq> b \<and> calls \<noteq> [] \<and> list_all (call_for a b) calls \<and> pair_ready a b rows"
  then show "\<exists>rows'. record_direct_messages rows calls = Inr rows'
        \<and> conversation_rows a b rows' =
            [\<lparr>user1_id = least_of a b, user2_id = greatest_of a b,
              last_message_at = call_at (last calls)\<rparr>]"
    using record_direct_messages_conversation by blast
next
  assume "a \<noteq> b \<and> calls \<noteq> [] \<and> list_all (call_for a b) calls \<and> pair_ready a b rows"
    and "sorted (map call_at calls)"
  then show "call_at (last calls) = Max (set (map call_at calls))"
    using sorted_last_Max [of "map call_at calls"] by (simp add: last_map)
qed

theorem record_direct_messages_last_witness:
  "(10 :: uuid) \<noteq> 11
   \<and> list_all (call_for 10 11) [(10, 10, 11, 7), (11, 11, 10, 9)]
   \<and> pair_ready 10 11 (direct_message_participants example_db)
   \<and> sorted (map call_at [(10 :: uuid, 10 :: uuid, 11 :: uuid, 7), (11, 11, 10, 9)])
   \<and> (\<exists>rows'. record_direct_messages (direct_message_participants example_db)
                  [(10, 10, 11, 7), (11, 11, 10, 9)] = Inr rows'
        \<and> conversation_rows 10 11 rows' = [\<lparr>user1_id = 10, user2_id = 11, last_message_at = 9\<rparr>])
   \<and> Max (set (map call_at [(10 :: uuid, 10 :: uuid, 11 :: uuid, 7), (11, 11, 10, 9)])) = 9"
proof -
  have calls: "list_all (call_for 10 11) [(10, 10, 11, 7), (11, 11, 10, 9)]"
    by (simp add: call_for_def)
  have ready: "pair_ready 10 11 (direct_message_participants example_db)"
    by (simp add: pair_ready_def dm_key_def example_db_def least_of_def greatest_of_def)
  from calls ready
    record_direct_messages_last [of 10 11 "[(10, 10, 11, 7), (11, 11, 10, 9)]"
      "direct_message_participants example_db"]
  show ?thesis by (simp add: least_of_def greatest_of_def)
qed

text \<open>
  C4. The invariant does not survive a client that creates the conversation itself. On an
  empty table, \<open>fetchProfiles\<close> run by user 11 for the profile of user 10 finds no row and
  inserts \<open>(11, 10)\<close>, the larger identifier first; when user 11 then sends user 10 a
  message, the trigger's upsert is keyed \<open>(10, 11)\<close>, meets no conflict and adds a second
  row for the same pair.
\<close>

theorem fetchProfiles_dm_second_row:
  "fetchProfiles_dm 11 [] 10 1 = [\<lparr>user1_id = 11, user2_id = 10, last_message_at = 1\<rparr>]
   \<and> sendMessage
        (empty_database\<lparr>direct_message_participants :=
           [\<lparr>user1_id = 11, user2_id = 10, last_message_at = 1\<rparr>]\<rparr>)
        (Some 11) None (Some 10) ''hi'' 1 2
      = (None,
         \<lparr>profiles = [], channels = [], channel_members = [],
          messages = [\<lparr>msg_id = 1, content = ''hi'', user_id = 11, channel_id = None,
                       recipient_id = Some 10, created_at = 2\<rparr>],
          direct_message_participants =
            [\<lparr>user1_id = 11, user2_id = 10, last_message_at = 1\<rparr>,
             \<lparr>user1_id = 10, user2_id = 11, last_message_at = 2\<rparr>]\<rparr>)
   \<and> conversation_rows 10 11
        [\<lparr>user1_id = 11, user2_id = 10, last_message_at = 1\<rparr>,
         \<lparr>user1_id = 10, user2_id = 11, last_message_at = 2\<rparr>]
      = [\<lparr>user1_id = 11, user2_id = 10, last_message_at = 1\<rparr>,
         \<lparr>user1_id = 10, user2_id = 11, last_message_at = 2\<rparr>]"
  by (simp add: fetchProfiles_dm_def conversation_rows_def dm_participants_insert_def
      dm_participants_policy_def check_different_users_def same_users_def
      sendMessage_def insert_message_def messages_insert_check_def messages_append_def
      check_message_target_def update_dm_participants_def record_direct_message_def
      dm_participants_upsert_def least_of_def greatest_of_def empty_database_def)

text \<open>
  The same two rows result in a database that holds the profiles of both users.
\<close>

lemma second_row_with_profiles:
  "sendMessage
     (example_db\<lparr>messages := [],
        direct_message_participants := fetchProfiles_dm 11 [] 10 1\<rparr>)
     (Some 11) None (Some 10) ''hi'' 1 2
   = (None,
      example_db
        \<lparr>messages := [\<lparr>msg_id = 1, content = ''hi'', user_id = 11, channel_id = None,
                        recipient_id = Some 10, created_at = 2\<rparr>],
         direct_message_participants :=
           [\<lparr>user1_id = 11, user2_id = 10, last_message_at = 1\<rparr>,
            \<lparr>user1_id = 10, user2_id = 11, last_message_at = 2\<rparr>]\<rparr>)"
  by (simp add: fetchProfiles_dm_def conversation_rows_def dm_participants_insert_def
      dm_participants_policy_def check_different_users_def same_users_def
      sendMessage_def insert_message_def messages_insert_check_def messages_append_def
      check_message_target_def update_dm_participants_def record_direct_message_def
      dm_participants_upsert_def least_of_def greatest_of_def example_db_def)

section \<open>Joining public channels\<close>

lemma is_channel_member_append:
  "is_channel_member (xs @ ys) c u \<longleftrightarrow> is_channel_member xs c u \<or> is_channel_member ys c u"
  by (simp add: is_channel_member_def)

lemma channel_members_insert_do_nothing_eq:
  "channel_members_insert_do_nothing rows r =
     Inr (if is_channel_member rows (cm_channel_id r) (cm_user_id r) then rows else rows @ [r])"
  by (simp add: channel_members_insert_do_nothing_def channel_members_insert_def
      is_channel_member_def)

lemma channel_members_insert_all_result:
  "\<exists>added. channel_members_insert_all rows rs = Inr (rows @ added)
      \<and> set added \<subseteq> set rs
      \<and> (\<forall>r \<in> set added. \<not> is_channel_member rows (cm_channel_id r) (cm_user_id r))
      \<and> (\<forall>r \<in> set rs. is_channel_member (rows @ added) (cm_channel_id r) (cm_user_id r))"
proof (induction rs arbitrary: rows)
  case Nil
  then show ?case by simp
next
  case (Cons r rs)
  show ?case
  proof (cases "is_channel_member rows (cm_channel_id r) (cm_user_id r)")
    case True
    from Cons.IH [of rows] obtain added where
      "channel_members_insert_all rows rs = Inr (rows @ added)"
      "set added \<subseteq> set rs"
      "\<forall>x \<in> set added. \<not> is_channel_member rows (cm_channel_id x) (cm_user_id x)"
      "\<forall>x \<in> set rs. is_channel_member (rows @ added) (cm_channel_id x) (cm_user_id x)"
      by blast
    with True show ?thesis
      by (intro exI [of _ added])
        (auto simp: channel_members_insert_do_nothing_eq is_channel_member_append)
  next
    case False
    from Cons.IH [of "rows @ [r]"] obtain added where
      "channel_members_insert_all (rows @ [r]) rs = Inr ((rows @ [r]) @ added)"
      "set added \<subseteq> set rs"
      "\<forall>x \<in> set added. \<not> is_channel_member (rows @ [r]) (cm_channel_id x) (cm_user_id x)"
      "\<forall>x \<in> set rs. is_channel_member ((rows @ [r]) @ added) (cm_channel_id x) (cm_user_id x)"
      by blast
    with False show ?thesis
      by (intro exI [of _ "r # added"])
        (auto simp: channel_members_insert_do_nothing_eq is_channel_member_append
          is_channel_member_def)
  qed
qed

lemma channel_members_insert_all_present:
  "\<forall>r \<in> set rs. is_channel_member rows (cm_channel_id r) (cm_user_id r) \<Longrightarrow>
     channel_members_insert_all rows rs = Inr rows"
  by (induction rs) (auto simp: channel_members_insert_do_nothing_eq)

lemma auto_join_public_channels_result:
  assumes path: "''public'' \<in> set search_path"
  shows "\<exists>db'. auto_join_public_channels search_path db u = Inr db'
      \<and> channels db' = channels db
      \<and> (\<forall>c \<in> set (channels db). is_private c = False \<longrightarrow>
            is_channel_member (channel_members db') (ch_id c) u)
      \<and> (\<exists>added. channel_members db' = channel_members db @ added
            \<and> (\<forall>r \<in> set added. cm_user_id r = u \<and> cm_role r = Member
                  \<and> \<not> is_channel_member (channel_members db) (cm_channel_id r) u))
      \<and> auto_join_public_channels search_path db' u = Inr db'"
proof -
  define new where
    "new = map (\<lambda>c. \<lparr>cm_channel_id = ch_id c, cm_user_id = u, cm_role = Member\<rparr>)
             (filter (\<lambda>c. is_private c = False) (channels db))"
  from channel_members_insert_all_result [of "channel_members db" new]
  obtain added where ins: "channel_members_insert_all (channel_members db) new
        = Inr (channel_members db @ added)"
    and sub: "set added \<subseteq> set new"
    and fresh: "\<forall>r \<in> set added. \<not> is_channel_member (channel_members db) (cm_channel_id r) (cm_user_id r)"
    and joined: "\<forall>r \<in> set new. is_channel_member (channel_members db @ added) (cm_channel_id r) (cm_user_id r)"
    by blast
  define db' where "db' = db\<lparr>channel_members := channel_members db @ added\<rparr>"
  have res: "auto_join_public_channels search_path db u = Inr db'"
    using ins path by (simp add: auto_join_public_channels_def new_def db'_def)
  have shape: "\<forall>r \<in> set new. cm_user_id r = u \<and> cm_role r = Member"
    by (auto simp: new_def)
  have public: "is_channel_member (channel_members db') (ch_id c) u"
    if "c \<in> set (channels db)" and "is_private c = False" for c
  proof -
    from that have "\<lparr>cm_channel_id = ch_id c, cm_user_id = u, cm_role = Member\<rparr> \<in> set new"
      by (auto simp: new_def)
    with joined show ?thesis by (fastforce simp: db'_def)
  qed
  have added: "\<forall>r \<in> set added. cm_user_id r = u \<and> cm_role r = Member
      \<and> \<not> is_channel_member (channel_members db) (cm_channel_id r) u"
    using sub shape fresh by auto
  have again: "auto_join_public_channels search_path db' u = Inr db'"
    using channel_members_insert_all_present [OF joined] path
    by (simp add: auto_join_public_channels_def new_def db'_def)
  from res public added again show ?thesis
    by (intro exI [of _ db']) (auto simp: db'_def)
qed

text \<open>
  For a pair that already has a row, the plain insert is a uniqueness conflict and
  \<open>ON CONFLICT DO NOTHING\<close> returns the table as it is.
\<close>

lemma channel_members_insert_do_nothing_present:
  assumes "is_channel_member rows c u"
  shows "channel_members_insert rows \<lparr>cm_channel_id = c, cm_user_id = u, cm_role = Member\<rparr>
          = Inl unique_violation
        \<and> channel_members_insert_do_nothing rows \<lparr>cm_channel_id = c, cm_user_id = u, cm_role = Member\<rparr>
          = Inr rows"
  using assms
  by (simp add: channel_members_insert_do_nothing_def channel_members_insert_def
      is_channel_member_def)

text \<open>
  Called with a search path that does not hold \<open>public\<close>, the function ends with an
  error; and so does every run of \<open>handle_new_user\<close>, which calls it with the empty path.
\<close>

lemma auto_join_public_channels_no_public:
  "''public'' \<notin> set search_path \<Longrightarrow> auto_join_public_channels search_path db u = Inl undefined_table"
  by (simp add: auto_join_public_channels_def)

lemma handle_new_user_aborts:
  "\<exists>e. handle_new_user db new = Inl e"
  by (simp add: handle_new_user_def auto_join_public_channels_def split: option.splits)

text \<open>
  C9. Creating a user does not give the user a membership row in every public channel: the
  insert of the profile of user 13 fires the auto-join inside \<open>handle_new_user\<close>, under
  the empty search path, where the function does not find its tables; the statement aborts,
  and the database keeps neither the profile nor a membership row in the public channel
  \<open>general\<close>. The same function, called for the same user with \<open>public\<close> on the search
  path, adds that row and changes nothing when run again.
\<close>

theorem handle_new_user_undefined_table:
  "handle_new_user example_db
     \<lparr>au_id = 13, email = Some ''dee@example.org'', meta_full_name = Some ''Dee'',
      meta_avatar_url = None\<rparr> = Inl undefined_table
   \<and> is_private general = False
   \<and> list_ex (\<lambda>c. c = general) (channels example_db)
   \<and> \<not> is_channel_member (channel_members example_db) (ch_id general) 13
   \<and> auto_join_public_channels [''public''] example_db 13
       = Inr (example_db\<lparr>channel_members := channel_members example_db @
               [\<lparr>cm_channel_id = 1, cm_user_id = 13, cm_role = Member\<rparr>]\<rparr>)
   \<and> auto_join_public_channels [''public'']
         (example_db\<lparr>channel_members := channel_members example_db @
               [\<lparr>cm_channel_id = 1, cm_user_id = 13, cm_role = Member\<rparr>]\<rparr>) 13
       = Inr (example_db\<lparr>channel_members := channel_members example_db @
               [\<lparr>cm_channel_id = 1, cm_user_id = 13, cm_role = Member\<rparr>]\<rparr>)"
  by (simp add: handle_new_user_def auto_join_public_channels_def
      channel_members_insert_do_nothing_def channel_members_insert_def is_channel_member_def
      example_db_def general_def design_def)

section \<open>The order of a query result\<close>

lemma order_by_created_at_unique:
  assumes res: "order_by_created_at rows res"
    and strict: "sorted_wrt (<) (map created_at rows)"
  shows "res = rows"
proof -
  from res have perm: "mset res = mset rows" and sorted_res: "sorted (map created_at res)"
    by (simp_all add: order_by_created_at_def)
  from strict have sorted_rows: "sorted (map created_at rows)"
    and distinct_rows: "distinct (map created_at rows)"
    by (simp_all add: strict_sorted_iff)
  from perm have "mset (map created_at res) = mset (map created_at rows)"
    by (metis mset_map)
  with sorted_res have "sort (map created_at rows) = map created_at res"
    by (intro properties_for_sort) simp_all
  with sorted_rows have keys: "map created_at res = map created_at rows"
    by (simp add: sorted_sort_id)
  from perm have "set res = set rows" by (rule mset_eq_setD)
  moreover from distinct_rows have "inj_on created_at (set rows)"
    by (simp add: distinct_map)
  ultimately have "inj_on created_at (set res \<union> set rows)" by simp
  with keys show ?thesis by (simp add: inj_on_map_eq_map)
qed

lemma order_by_created_at_sort_key:
  "order_by_created_at rows (sort_key created_at rows)"
  by (simp add: order_by_created_at_def)

text \<open>
  C8, as the claim states it, fails: with two messages of one channel created at the same
  instant, the rows in insertion order are a result of the query, and they are not in the
  order \<open>(created_at, id)\<close>.
\<close>

theorem fetchMessages_tie_counterexample:
  "fetchMessages (example_db\<lparr>messages := [tie_first, tie_second]\<rparr>) 10 (Some 1) None
     [tie_first, tie_second]
   \<and> \<not> sorted_wrt created_at_id_le [tie_first, tie_second]"
  by (simp add: fetchMessages_def fetchMessages_rows_def fetchMessages_filter_def
      order_by_created_at_def messages_select_def is_channel_member_def created_at_id_le_def
      example_db_def tie_first_def tie_second_def)

text \<open>
  C8, amended. Every result of the query holds exactly the rows that the user may see and
  the filter keeps, in non-decreasing order of \<open>created_at\<close>; the query orders by that
  column alone. When the timestamps of those rows strictly increase in insertion order, the
  result is the rows in insertion order. The query always has a result.
\<close>

theorem fetchMessages_ordered_by_created_at:
  "(fetchMessages db u channelId recipientId res \<longrightarrow>
      sorted (map created_at res)
      \<and> mset res = mset (fetchMessages_rows db u channelId recipientId)
      \<and> (sorted_wrt (<) (map created_at (fetchMessages_rows db u channelId recipientId)) \<longrightarrow>
           res = fetchMessages_rows db u channelId recipientId))
   \<and> fetchMessages db u channelId recipientId
        (sort_key created_at (fetchMessages_rows db u channelId recipientId))"
  using order_by_created_at_unique [of "fetchMessages_rows db u channelId recipientId" res]
    order_by_created_at_sort_key [of "fetchMessages_rows db u channelId recipientId"]
  by (auto simp: fetchMessages_def order_by_created_at_def)

theorem fetchMessages_ordered_by_created_at_witness:
  "fetchMessages (example_db\<lparr>messages := [msg_design, forged_design]\<rparr>) 11 (Some 2) None
     [msg_design, forged_design]
   \<and> fetchMessages_rows (example_db\<lparr>messages := [msg_design, forged_design]\<rparr>) 11 (Some 2) None
       = [msg_design, forged_design]
   \<and> sorted_wrt (<) (map created_at [msg_design, forged_design])
   \<and> sorted (map created_at [msg_design, forged_design])"
proof -
  have rows: "fetchMessages_rows (example_db\<lparr>messages := [msg_design, forged_design]\<rparr>) 11 (Some 2) None
      = [msg_design, forged_design]"
    by (simp add: fetchMessages_rows_def fetchMessages_filter_def messages_select_def
        is_channel_member_def example_db_def msg_design_def forged_design_def)
  have strict: "sorted_wrt (<) (map created_at [msg_design, forged_design])"
    by (simp add: msg_design_def forged_design_def)
  have res: "fetchMessages (example_db\<lparr>messages := [msg_design, forged_design]\<rparr>) 11 (Some 2) None
     [msg_design, forged_design]"
    unfolding fetchMessages_def rows
    by (simp add: order_by_created_at_def msg_design_def forged_design_def)
  from rows strict res
    fetchMessages_ordered_by_created_at
      [of "example_db\<lparr>messages := [msg_design, forged_design]\<rparr>" 11 "Some 2" None
        "[msg_design, forged_design]"]
  show ?thesis by simp
qed

end
